theory Spec2Isabelle
  imports Complex_Main
begin

section \<open>Scenes and scenarios (ai.service.ts)\<close>

text \<open>
  A JavaScript \<open>number\<close>. Scene identifiers are integers and are modelled as \<open>int\<close>;
  every other numeric field (a duration, a number inside a JSON payload) keeps the
  non-finite values apart from the finite ones.
\<close>

datatype number = Finite rat | PosInfinity | NegInfinity | NaN

text \<open>
  \<open>interface SceneInput { id; description }\<close> and
  \<open>interface SceneOutput { id; description; imageUrl?; videoUrl?; title?; duration }\<close>.
  The field \<open>id\<close> is called \<open>scene_id\<close> here. \<open>SceneOutput\<close> extends
  \<open>SceneInput\<close> structurally, as it does for TypeScript.
\<close>

record SceneInput =
  scene_id :: int
  description :: string

record SceneOutput = SceneInput +
  imageUrl :: "string option"
  videoUrl :: "string option"
  title :: "string option"
  duration :: number

record ScenarioResult =
  result_scenarioId :: string
  result_scenes :: "SceneOutput list"

section \<open>The dirty computation (Screen2.tsx, dirtyInfo)\<close>

record DirtyInfo =
  dirtyIds :: "int list"
  dirtyCount :: nat

text \<open>
  \<open>base.forEach((s) => baseMap.set(s.id, s.description))\<close>: a later scene with the same id
  overwrites the entry of an earlier one.
\<close>

definition baseMap_set :: "SceneOutput \<Rightarrow> (int \<rightharpoonup> string) \<Rightarrow> (int \<rightharpoonup> string)" where
  "baseMap_set s m = m(scene_id s \<mapsto> description s)"

definition baseMap_of :: "SceneOutput list \<Rightarrow> (int \<rightharpoonup> string)" where
  "baseMap_of base = fold baseMap_set base Map.empty"

text \<open>
  The \<open>for (const s of scenes)\<close> loop; \<open>baseMap.get\<close> answers \<open>undefined\<close> (here
  \<open>None\<close>) for an id that is not a key, and \<open>push\<close> appends.
\<close>

fun dirtyLoop :: "(int \<rightharpoonup> string) \<Rightarrow> SceneOutput list \<Rightarrow> int list \<Rightarrow> int list" where
  "dirtyLoop m [] acc = acc"
| "dirtyLoop m (s # rest) acc =
     (case m (scene_id s) of
        None \<Rightarrow> dirtyLoop m rest acc
      | Some baseDesc \<Rightarrow>
          dirtyLoop m rest (if baseDesc \<noteq> description s then acc @ [scene_id s] else acc))"

text \<open>
  The body of the \<open>useMemo\<close>: a function of the live collection \<open>scenes\<close> and of
  \<open>baselineScenesRef.current\<close>. React keeps the value until \<open>scenes\<close> changes; a
  reader of \<open>dirtyInfo\<close> is given here the value for the state in which it reads.
\<close>

definition dirtyInfo :: "SceneOutput list \<Rightarrow> SceneOutput list \<Rightarrow> DirtyInfo" where
  "dirtyInfo live base =
     (let ids = dirtyLoop (baseMap_of base) live []
      in \<lparr>dirtyIds = ids, dirtyCount = length ids\<rparr>)"

text \<open>The data model's rule that an id identifies one scene of a collection.\<close>

definition unique_ids :: "SceneOutput list \<Rightarrow> bool" where
  "unique_ids xs = distinct (map scene_id xs)"

section \<open>The screen's state and its effects (Screen2.tsx)\<close>

text \<open>
  The two asynchronous handlers of the screen: \<open>handleRegenerateAll\<close> (Protocol A, full
  regenerate) and \<open>handleGenerateVideoClick\<close> (Protocol B, incremental sync).
\<close>

datatype Protocol = RegenerateAll | GenerateVideo

text \<open>The arguments of one call of \<open>AIService.regenerateScenario\<close>.\<close>

record Request =
  req_scenarioId :: string
  req_scenes :: "SceneInput list"
  req_characterImageUrl :: string

text \<open>
  The call either resolves with a \<open>ScenarioResult\<close> or rejects with an error, of which
  the handlers use nothing but that it was thrown.
\<close>

type_synonym Outcome = "string + ScenarioResult"

text \<open>
  The two \<open>window.confirm\<close> questions and the three \<open>alert\<close> messages, named after what
  they say.
\<close>

datatype Prompt = ConfirmRegenerateAll | ConfirmDiscardEdit

datatype Notice = NoScenarioId | RegenerateAllFailed | AutoRegenerateFailed

text \<open>
  What a handler does to the world and to the engine's shared state, in program order:
  a question to the user with the answer, an alert, a line on the console, a remote call
  being issued, the continuation \<open>onNext\<close>, and the writes of the live collection, the
  baseline, the scenario id and the in-progress flag. \<open>CaptureBaseline\<close> is the write
  made by the effect that initialises the baseline.
\<close>

datatype Effect =
    Confirm Prompt bool
  | Alert Notice
  | ConsoleError Protocol
  | RegenerateCall Request
  | OnNext
  | SetScenes "SceneOutput list"
  | SetScenarioId string
  | SetBaseline "SceneOutput list"
  | CaptureBaseline "SceneOutput list"
  | SetIsRegenerating bool

text \<open>
  The state the component reads and writes: \<open>scenes\<close>, \<open>scenarioId\<close> and
  \<open>characterData.imageUrl\<close> from the application context, the three \<open>useState\<close> cells,
  and \<open>baselineScenesRef.current\<close>. \<open>inFlight\<close> lists the handlers suspended at their
  \<open>await\<close>, and \<open>effects\<close> is the log of what has been done so far.
\<close>

record State =
  scenes :: "SceneOutput list"
  scenarioId :: "string option"
  characterImageUrl :: string
  editingSceneId :: "int option"
  editedDescription :: string
  isRegenerating :: bool
  baselineScenes :: "SceneOutput list"
  inFlight :: "Protocol list"
  effects :: "Effect list"

text \<open>The component as mounted: \<open>useState(null)\<close>, \<open>useState("")\<close>, \<open>useState(false)\<close>, \<open>useRef([])\<close>.\<close>

definition mounted :: "State \<Rightarrow> bool" where
  "mounted s \<longleftrightarrow>
     editingSceneId s = None \<and> editedDescription s = [] \<and> \<not> isRegenerating s \<and>
     baselineScenes s = [] \<and> inFlight s = [] \<and> effects s = []"

subsection \<open>Primitive statements\<close>

definition emit :: "Effect \<Rightarrow> State \<Rightarrow> State" where
  "emit e s = s\<lparr>effects := effects s @ [e]\<rparr>"

definition setScenes :: "SceneOutput list \<Rightarrow> State \<Rightarrow> State" where
  "setScenes xs s = emit (SetScenes xs) (s\<lparr>scenes := xs\<rparr>)"

definition setScenarioId :: "string \<Rightarrow> State \<Rightarrow> State" where
  "setScenarioId x s = emit (SetScenarioId x) (s\<lparr>scenarioId := Some x\<rparr>)"

definition setBaseline :: "SceneOutput list \<Rightarrow> State \<Rightarrow> State" where
  "setBaseline xs s = emit (SetBaseline xs) (s\<lparr>baselineScenes := xs\<rparr>)"

definition setIsRegenerating :: "bool \<Rightarrow> State \<Rightarrow> State" where
  "setIsRegenerating b s = emit (SetIsRegenerating b) (s\<lparr>isRegenerating := b\<rparr>)"

text \<open>
  Issuing \<open>AIService.regenerateScenario(...)\<close> and suspending at the \<open>await\<close>: the call
  is logged and the handler joins \<open>inFlight\<close>.
\<close>

definition awaitRegenerate :: "Protocol \<Rightarrow> Request \<Rightarrow> State \<Rightarrow> State" where
  "awaitRegenerate p req s = (emit (RegenerateCall req) s)\<lparr>inFlight := inFlight s @ [p]\<rparr>"

text \<open>\<open>!scenarioId\<close> holds for \<open>null\<close> and for the empty string.\<close>

definition hasScenarioId :: "State \<Rightarrow> bool" where
  "hasScenarioId s = (case scenarioId s of None \<Rightarrow> False | Some x \<Rightarrow> x \<noteq> [])"

text \<open>\<open>xs.map((s) => ({ id: s.id, description: s.description }))\<close>\<close>

definition toSceneInputs :: "SceneOutput list \<Rightarrow> SceneInput list" where
  "toSceneInputs xs = map (\<lambda>s. \<lparr>scene_id = scene_id s, description = description s\<rparr>) xs"

subsection \<open>Baseline capture (the \<open>useEffect\<close> on \<open>scenes\<close>)\<close>

definition captureBaseline :: "State \<Rightarrow> State" where
  "captureBaseline s =
     (if length (baselineScenes s) = 0 \<and> length (scenes s) > 0
      then emit (CaptureBaseline (scenes s)) (s\<lparr>baselineScenes := scenes s\<rparr>)
      else s)"

subsection \<open>Editing\<close>

definition handleEditScene :: "int \<Rightarrow> string \<Rightarrow> State \<Rightarrow> State" where
  "handleEditScene sceneId descr s = s\<lparr>editingSceneId := Some sceneId, editedDescription := descr\<rparr>"

text \<open>
  \<open>if (editingSceneId)\<close> tests truthiness: the body is skipped for \<open>null\<close> and also for
  the number \<open>0\<close>.
\<close>

definition handleSaveEdit :: "State \<Rightarrow> State" where
  "handleSaveEdit s =
     (case editingSceneId s of
        None \<Rightarrow> s
      | Some eid \<Rightarrow>
          if eid = 0 then s
          else (setScenes
                  (map (\<lambda>scene. if scene_id scene = eid
                                 then scene\<lparr>description := editedDescription s\<rparr>
                                 else scene) (scenes s)) s)
                 \<lparr>editingSceneId := None, editedDescription := []\<rparr>)"

definition handleCancelEdit :: "State \<Rightarrow> State" where
  "handleCancelEdit s = s\<lparr>editingSceneId := None, editedDescription := []\<rparr>"

subsection \<open>Protocol A: \<open>handleRegenerateAll\<close>\<close>

text \<open>
  The handler up to its \<open>await\<close>; \<open>ok\<close> is the user's answer to \<open>window.confirm\<close>, should
  the question be asked.
\<close>

definition regenerateAllSource :: "State \<Rightarrow> SceneOutput list" where
  "regenerateAllSource s = (if length (baselineScenes s) > 0 then baselineScenes s else scenes s)"

definition handleRegenerateAll :: "bool \<Rightarrow> State \<Rightarrow> State" where
  "handleRegenerateAll ok s =
     (case scenarioId s of
        None \<Rightarrow> s
      | Some sid \<Rightarrow>
          if sid = [] then s
          else
            let s1 = emit (Confirm ConfirmRegenerateAll ok) s in
            if \<not> ok then s1
            else
              let s2 = setIsRegenerating True s1;
                  base = regenerateAllSource s2;
                  s3 = setScenes base s2
              in awaitRegenerate RegenerateAll
                   \<lparr>req_scenarioId = sid, req_scenes = toSceneInputs base,
                    req_characterImageUrl = characterImageUrl s3\<rparr> s3)"

text \<open>The rest of the handler, run when the call settles: \<open>try\<close> tail, \<open>catch\<close>, \<open>finally\<close>.\<close>

definition regenerateAllSettled :: "Outcome \<Rightarrow> State \<Rightarrow> State" where
  "regenerateAllSettled outcome s =
     setIsRegenerating False
       (case outcome of
          Inr result \<Rightarrow>
            setBaseline (result_scenes result)
              (setScenes (result_scenes result)
                (setScenarioId (result_scenarioId result) s))
        | Inl error \<Rightarrow>
            emit (Alert RegenerateAllFailed) (emit (ConsoleError RegenerateAll) s))"

subsection \<open>Protocol B: \<open>handleGenerateVideoClick\<close>\<close>

definition handleGenerateVideoClick :: "bool \<Rightarrow> State \<Rightarrow> State" where
  "handleGenerateVideoClick ok s =
     (case scenarioId s of
        None \<Rightarrow> emit (Alert NoScenarioId) s
      | Some sid \<Rightarrow>
          if sid = [] then emit (Alert NoScenarioId) s
          else if editingSceneId s \<noteq> None \<and> \<not> ok then emit (Confirm ConfirmDiscardEdit ok) s
          else
            let s1 = (if editingSceneId s \<noteq> None
                      then (emit (Confirm ConfirmDiscardEdit ok) s)
                             \<lparr>editingSceneId := None, editedDescription := []\<rparr>
                      else s)
            in if dirtyCount (dirtyInfo (scenes s) (baselineScenes s)) > 0
               then awaitRegenerate GenerateVideo
                      \<lparr>req_scenarioId = sid, req_scenes = toSceneInputs (scenes s),
                       req_characterImageUrl = characterImageUrl s\<rparr>
                      (setIsRegenerating True s1)
               else emit OnNext s1)"

definition generateVideoSettled :: "Outcome \<Rightarrow> State \<Rightarrow> State" where
  "generateVideoSettled outcome s =
     (case outcome of
        Inr result \<Rightarrow>
          emit OnNext
            (setIsRegenerating False
              (setBaseline (result_scenes result)
                (setScenes (result_scenes result)
                  (setScenarioId (result_scenarioId result) s))))
      | Inl error \<Rightarrow>
          setIsRegenerating False
            (emit (Alert AutoRegenerateFailed) (emit (ConsoleError GenerateVideo) s)))"

definition settled :: "Protocol \<Rightarrow> Outcome \<Rightarrow> State \<Rightarrow> State" where
  "settled p outcome s =
     (case p of
        RegenerateAll \<Rightarrow> regenerateAllSettled outcome s
      | GenerateVideo \<Rightarrow> generateVideoSettled outcome s)"

subsection \<open>The buttons\<close>

text \<open>
  \<open>const isRegenAllDisabled = isRegenerating || !scenarioId\<close>; the REGENERATE ALL button
  has \<open>disabled={isRegenAllDisabled}\<close> and the generate-video button has
  \<open>disabled={isRegenerating}\<close>. A disabled button does not run its \<open>onClick\<close>.
\<close>

definition isRegenAllDisabled :: "State \<Rightarrow> bool" where
  "isRegenAllDisabled s \<longleftrightarrow> isRegenerating s \<or> \<not> hasScenarioId s"

definition clickRegenerateAll :: "bool \<Rightarrow> State \<Rightarrow> State" where
  "clickRegenerateAll ok s = (if isRegenAllDisabled s then s else handleRegenerateAll ok s)"

definition clickGenerateVideo :: "bool \<Rightarrow> State \<Rightarrow> State" where
  "clickGenerateVideo ok s = (if isRegenerating s then s else handleGenerateVideoClick ok s)"

subsection \<open>Runs of the screen\<close>

text \<open>
  Everything that can happen to the mounted screen: the baseline effect runs, the user
  opens an editor, types, saves or cancels, clicks one of the two buttons (answering the
  question, if one is asked), or a suspended handler's call settles.
\<close>

datatype Event =
    ScenesEffect
  | EditScene int string
  | TypeDescription string
  | SaveEdit
  | CancelEdit
  | ClickRegenerateAll bool
  | ClickGenerateVideo bool
  | Settled Protocol Outcome

fun step :: "Event \<Rightarrow> State \<Rightarrow> State" where
  "step ScenesEffect s = captureBaseline s"
| "step (EditScene i d) s = handleEditScene i d s"
| "step (TypeDescription t) s = s\<lparr>editedDescription := t\<rparr>"
| "step SaveEdit s = handleSaveEdit s"
| "step CancelEdit s = handleCancelEdit s"
| "step (ClickRegenerateAll ok) s = clickRegenerateAll ok s"
| "step (ClickGenerateVideo ok) s = clickGenerateVideo ok s"
| "step (Settled p outcome) s =
     (if p \<in> set (inFlight s)
      then settled p outcome (s\<lparr>inFlight := remove1 p (inFlight s)\<rparr>)
      else s)"

definition run :: "Event list \<Rightarrow> State \<Rightarrow> State" where
  "run es s = fold step es s"

subsection \<open>Reading the log\<close>

text \<open>
  \<open>callsGuarded flag log\<close>: reading \<open>log\<close> from its start with the in-progress flag at
  \<open>flag\<close>, every remote call is issued while the latest write of the flag is \<open>true\<close>.
  \<open>flagAfter flag log\<close> is the flag's value at the end of the log.
\<close>

fun callsGuarded :: "bool \<Rightarrow> Effect list \<Rightarrow> bool" where
  "callsGuarded flag [] = True"
| "callsGuarded flag (SetIsRegenerating b # es) = callsGuarded b es"
| "callsGuarded flag (RegenerateCall req # es) = (flag \<and> callsGuarded flag es)"
| "callsGuarded flag (e # es) = callsGuarded flag es"

fun flagAfter :: "bool \<Rightarrow> Effect list \<Rightarrow> bool" where
  "flagAfter flag [] = flag"
| "flagAfter flag (SetIsRegenerating b # es) = flagAfter b es"
| "flagAfter flag (e # es) = flagAfter flag es"

text \<open>How often the baseline effect has written the baseline.\<close>

fun isCapture :: "Effect \<Rightarrow> bool" where
  "isCapture (CaptureBaseline xs) = True"
| "isCapture e = False"

definition captureCount :: "State \<Rightarrow> nat" where
  "captureCount s = length (filter isCapture (effects s))"

text \<open>The invariant of the in-progress flag.\<close>

definition guardInv :: "State \<Rightarrow> bool" where
  "guardInv s \<longleftrightarrow>
     length (inFlight s) \<le> 1 \<and> (isRegenerating s \<longleftrightarrow> inFlight s \<noteq> []) \<and>
     callsGuarded False (effects s) \<and> flagAfter False (effects s) = isRegenerating s"

text \<open>The baseline effect has nothing to do: the baseline is set, or there is no scene.\<close>

definition captureSpent :: "State \<Rightarrow> bool" where
  "captureSpent s \<longleftrightarrow> (baselineScenes s = [] \<longrightarrow> scenes s = [])"

section \<open>The service (ai.service.ts)\<close>

subsection \<open>Numbers in template strings\<close>

text \<open>
  The decimal numeral of a natural number and of an integer. A JavaScript number in a
  template string is printed with the shortest digits that read back as the same number.
  For an integer of magnitude below \<open>2^53\<close> these are the digits of its decimal numeral;
  from \<open>2^53\<close> on they need not be (\<open>2^63\<close> is printed as \<open>9223372036854776000\<close>),
  and from \<open>10^21\<close> on the notation has an exponent. \<open>res.status\<close> is an HTTP status
  code, a number of three digits, and \<open>digitsOf\<close> prints it. A scene id is any number,
  so the functions that print one take the printing of a number as the parameter
  \<open>numberToString\<close>; \<open>intToString\<close> is that printing on the integers below \<open>2^53\<close>
  in magnitude.
\<close>

fun digitsOf :: "nat \<Rightarrow> string" where
  "digitsOf n =
     (if n < 10 then [''0123456789'' ! n]
      else digitsOf (n div 10) @ [''0123456789'' ! (n mod 10)])"

declare digitsOf.simps [simp del]

definition intToString :: "int \<Rightarrow> string" where
  "intToString i = (if i < 0 then CHR ''-'' # digitsOf (nat (- i)) else digitsOf (nat i))"

subsection \<open>Demo mode: \<open>regenerateScenario\<close>\<close>

text \<open>
  The demo file's \<open>SceneOutput\<close> has \<open>duration_sec\<close> where the API file's has
  \<open>duration\<close>; its fields carry the suffix \<open>_demo\<close> here.
\<close>

record DemoSceneOutput = SceneInput +
  imageUrl_demo :: "string option"
  videoUrl_demo :: "string option"
  title_demo :: "string option"
  duration_sec :: number

record DemoScenarioResult =
  scenarioId_demo :: string
  scenes_demo :: "DemoSceneOutput list"

text \<open>
  After the 1500 ms timer the function returns; the spread \<open>...scene\<close> copies \<open>id\<close> and
  \<open>description\<close>, the fields of a \<open>SceneInput\<close>, and \<open>videoUrl\<close> stays absent.
  \<open>numberToString\<close> is the printing of \<open>scene.id\<close> inside the two template strings.
\<close>

definition regenerateScenario_demo ::
    "(int \<Rightarrow> string) \<Rightarrow> string \<Rightarrow> SceneInput list \<Rightarrow> string \<Rightarrow> DemoScenarioResult" where
  "regenerateScenario_demo numberToString sid inputs characterImage =
     \<lparr>scenarioId_demo = sid,
      scenes_demo =
        map (\<lambda>scene.
              \<lparr>scene_id = scene_id scene, description = description scene,
               imageUrl_demo =
                 Some (''/demo/images/scene-'' @ numberToString (scene_id scene) @ ''.png''),
               videoUrl_demo = None,
               title_demo = Some (''Scene '' @ numberToString (scene_id scene)),
               duration_sec = Finite 4\<rparr>) inputs\<rparr>"

text \<open>The integers below \<open>2^53\<close> in magnitude, which JavaScript calls safe.\<close>

definition safeInteger :: "int \<Rightarrow> bool" where
  "safeInteger i \<longleftrightarrow> \<bar>i\<bar> < 2 ^ 53"

subsection \<open>\<open>requestJson\<close>\<close>

text \<open>What \<open>JSON.parse\<close> returns. An object lists its own properties, each key once.\<close>

datatype json =
    JNull
  | JBool bool
  | JNumber number
  | JString string
  | JArray "json list"
  | JObject "(string \<times> json) list"


fun truthy :: "json \<Rightarrow> bool" where
  "truthy JNull = False"
| "truthy (JBool b) = b"
| "truthy (JNumber n) = (n \<noteq> Finite 0 \<and> n \<noteq> NaN)"
| "truthy (JString s) = (s \<noteq> [])"
| "truthy (JArray xs) = True"
| "truthy (JObject props) = True"

definition falsy :: "json option \<Rightarrow> bool" where
  "falsy v = (case v of None \<Rightarrow> True | Some x \<Rightarrow> \<not> truthy x)"

text \<open>\<open>a || b\<close>, where \<open>b\<close> is never \<open>undefined\<close>.\<close>

definition orElse :: "json option \<Rightarrow> json \<Rightarrow> json" where
  "orElse a b = (case a of None \<Rightarrow> b | Some v \<Rightarrow> if truthy v then v else b)"




datatype Thrown = Error string | TypeError string




section \<open>Sample values\<close>

text \<open>
  The scenes, states and responses of the worked examples below: a scenario of two scenes
  \<open>A\<close> and \<open>B\<close>, the first of which the user edits to \<open>A2\<close>.
\<close>

abbreviation scene :: "int \<Rightarrow> string \<Rightarrow> SceneOutput" where
  "scene i d \<equiv> \<lparr>scene_id = i, description = d, imageUrl = None, videoUrl = None,
     title = None, duration = Finite 4\<rparr>"

abbreviation edited_state :: State where
  "edited_state \<equiv>
     \<lparr>scenes = [scene 1 ''A2'', scene 2 ''B''], scenarioId = Some ''s1'',
      characterImageUrl = ''c.png'', editingSceneId = None, editedDescription = [],
      isRegenerating = False, baselineScenes = [scene 1 ''A'', scene 2 ''B''],
      inFlight = [], effects = []\<rparr>"

abbreviation synced_result :: ScenarioResult where
  "synced_result \<equiv>
     \<lparr>result_scenarioId = ''s2'', result_scenes = [scene 1 ''A2'', scene 2 ''B'']\<rparr>"

abbreviation editing_clean_state :: State where
  "editing_clean_state \<equiv>
     \<lparr>scenes = [scene 1 ''A'', scene 2 ''B''], scenarioId = Some ''s1'',
      characterImageUrl = ''c.png'', editingSceneId = Some 1, editedDescription = ''A2'',
      isRegenerating = False, baselineScenes = [scene 1 ''A'', scene 2 ''B''],
      inFlight = [], effects = []\<rparr>"

abbreviation clean_state :: State where
  "clean_state \<equiv>
     \<lparr>scenes = [scene 1 ''A'', scene 2 ''B''], scenarioId = Some ''s1'',
      characterImageUrl = ''c.png'', editingSceneId = None, editedDescription = [],
      isRegenerating = False, baselineScenes = [scene 1 ''A'', scene 2 ''B''],
      inFlight = [], effects = []\<rparr>"

abbreviation mounted_state :: State where
  "mounted_state \<equiv>
     \<lparr>scenes = [scene 1 ''A'', scene 2 ''B''], scenarioId = Some ''s1'',
      characterImageUrl = ''c.png'', editingSceneId = None, editedDescription = [],
      isRegenerating = False, baselineScenes = [], inFlight = [], effects = []\<rparr>"





abbreviation zero_id_state :: State where
  "zero_id_state \<equiv>
     \<lparr>scenes = [scene 0 ''A'', scene 1 ''B''], scenarioId = Some ''s1'',
      characterImageUrl = ''c.png'', editingSceneId = None, editedDescription = [],
      isRegenerating = False, baselineScenes = [scene 0 ''A'', scene 1 ''B''],
      inFlight = [], effects = []\<rparr>"

section \<open>Unfolding the handlers\<close>

lemmas statement_defs =
  emit_def setScenes_def setScenarioId_def setBaseline_def setIsRegenerating_def
  awaitRegenerate_def

lemmas handler_defs =
  handleRegenerateAll_def regenerateAllSettled_def handleGenerateVideoClick_def
  generateVideoSettled_def settled_def regenerateAllSource_def hasScenarioId_def

lemmas eval_defs =
  handler_defs statement_defs dirtyInfo_def baseMap_of_def baseMap_set_def toSceneInputs_def
  run_def captureBaseline_def handleEditScene_def handleSaveEdit_def handleCancelEdit_def
  clickRegenerateAll_def clickGenerateVideo_def isRegenAllDisabled_def mounted_def

section \<open>Facts about the dirty computation\<close>

lemma fold_baseMap:
  "fold baseMap_set base m0 i =
     (case filter (\<lambda>b. scene_id b = i) base of
        [] \<Rightarrow> m0 i
      | x # xs \<Rightarrow> Some (description (last (x # xs))))"
proof (induction base arbitrary: m0)
  case Nil
  show ?case by simp
next
  case (Cons b base)
  have "fold baseMap_set (b # base) m0 i =
      (case filter (\<lambda>b. scene_id b = i) base of
         [] \<Rightarrow> baseMap_set b m0 i
       | x # xs \<Rightarrow> Some (description (last (x # xs))))"
    by (simp add: Cons.IH)
  also have "\<dots> =
      (case filter (\<lambda>b. scene_id b = i) (b # base) of
         [] \<Rightarrow> m0 i
       | x # xs \<Rightarrow> Some (description (last (x # xs))))"
    by (cases "filter (\<lambda>b. scene_id b = i) base") (auto simp: baseMap_set_def)
  finally show ?case .
qed

lemma baseMap_of_eq:
  "baseMap_of base i =
     (if \<exists>b\<in>set base. scene_id b = i
      then Some (description (last (filter (\<lambda>b. scene_id b = i) base)))
      else None)"
proof (cases "filter (\<lambda>b. scene_id b = i) base")
  case Nil
  then have "\<not> (\<exists>b\<in>set base. scene_id b = i)"
    by (simp add: filter_empty_conv)
  with Nil show ?thesis
    by (simp add: baseMap_of_def fold_baseMap)
next
  case (Cons x xs)
  then have "x \<in> set (filter (\<lambda>b. scene_id b = i) base)"
    by simp
  then have "\<exists>b\<in>set base. scene_id b = i"
    by auto
  with Cons show ?thesis
    by (simp add: baseMap_of_def fold_baseMap)
qed

lemma filter_unique_id:
  assumes "distinct (map scene_id base)" and "b \<in> set base"
  shows "filter (\<lambda>x. scene_id x = scene_id b) base = [b]"
  using assms
proof (induction base)
  case Nil
  then show ?case by simp
next
  case (Cons x base)
  show ?case
  proof (cases "x = b")
    case True
    have "\<forall>y\<in>set base. scene_id y \<noteq> scene_id b"
      using Cons.prems(1) True by (auto simp: image_iff)
    then have "filter (\<lambda>x. scene_id x = scene_id b) base = []"
      by (simp add: filter_empty_conv)
    with True show ?thesis by simp
  next
    case False
    with Cons.prems have "b \<in> set base" and "scene_id x \<noteq> scene_id b"
      by (auto simp: image_iff)
    with Cons show ?thesis by simp
  qed
qed

lemma baseMap_of_unique:
  assumes "unique_ids base" and "b \<in> set base"
  shows "baseMap_of base (scene_id b) = Some (description b)"
proof -
  have "filter (\<lambda>x. scene_id x = scene_id b) base = [b]"
    using assms by (simp add: filter_unique_id unique_ids_def)
  with assms(2) show ?thesis
    by (auto simp: baseMap_of_eq)
qed

lemma dirtyLoop_eq:
  "dirtyLoop m live acc =
     acc @ map scene_id
       (filter (\<lambda>s. case m (scene_id s) of None \<Rightarrow> False | Some d \<Rightarrow> d \<noteq> description s) live)"
  by (induction live arbitrary: acc) (auto split: option.splits)

lemma dirtyIds_eq:
  "dirtyIds (dirtyInfo live base) =
     map scene_id
       (filter (\<lambda>s. case baseMap_of base (scene_id s) of
                      None \<Rightarrow> False | Some d \<Rightarrow> d \<noteq> description s) live)"
  by (simp add: dirtyInfo_def Let_def dirtyLoop_eq)

lemma dirtyCount_eq: "dirtyCount (dirtyInfo live base) = length (dirtyIds (dirtyInfo live base))"
  by (simp add: dirtyInfo_def Let_def)

lemma dirtyIds_member:
  "i \<in> set (dirtyIds (dirtyInfo live base)) \<longleftrightarrow>
     (\<exists>s\<in>set live. scene_id s = i \<and>
        (\<exists>d. baseMap_of base i = Some d \<and> d \<noteq> description s))"
  by (auto simp: dirtyIds_eq split: option.splits)

lemma dirtyIds_distinct:
  assumes "unique_ids live"
  shows "distinct (dirtyIds (dirtyInfo live base))"
proof -
  have "distinct (map scene_id (filter P live))" for P
    using assms unfolding unique_ids_def by (rule distinct_map_filter)
  then show ?thesis by (simp add: dirtyIds_eq)
qed

lemma dirtyInfo_same:
  assumes "unique_ids xs"
  shows "dirtyInfo xs xs = \<lparr>dirtyIds = [], dirtyCount = 0\<rparr>"
proof -
  have "\<forall>s\<in>set xs. baseMap_of xs (scene_id s) = Some (description s)"
    using assms by (simp add: baseMap_of_unique)
  then have "filter (\<lambda>s. case baseMap_of xs (scene_id s) of
                 None \<Rightarrow> False | Some d \<Rightarrow> d \<noteq> description s) xs = []"
    by (simp add: filter_empty_conv)
  then have "dirtyLoop (baseMap_of xs) xs [] = []"
    by (simp add: dirtyLoop_eq)
  then show ?thesis by (simp add: dirtyInfo_def)
qed

lemma dirtyInfo_empty_base: "dirtyInfo live [] = \<lparr>dirtyIds = [], dirtyCount = 0\<rparr>"
  by (simp add: dirtyInfo_def dirtyLoop_eq baseMap_of_def)

lemma dirtyInfo_empty_live: "dirtyInfo [] base = \<lparr>dirtyIds = [], dirtyCount = 0\<rparr>"
  by (simp add: dirtyInfo_def)

lemma last_filter_same_id:
  assumes "s \<in> set xs"
  shows "last (filter (\<lambda>b. scene_id b = scene_id s) xs) \<in> set xs"
    and "scene_id (last (filter (\<lambda>b. scene_id b = scene_id s) xs)) = scene_id s"
proof -
  let ?f = "filter (\<lambda>b. scene_id b = scene_id s) xs"
  from assms have "s \<in> set ?f" by simp
  then have ne: "?f \<noteq> []" by (metis empty_iff list.set(1))
  then have "last ?f \<in> set ?f" by (rule last_in_set)
  then show "last ?f \<in> set xs" and "scene_id (last ?f) = scene_id s"
    by simp_all
qed

lemma dirtyCount_same_last:
  "dirtyCount (dirtyInfo xs xs) = 0 \<longleftrightarrow>
     (\<forall>s\<in>set xs. description (last (filter (\<lambda>b. scene_id b = scene_id s) xs)) = description s)"
proof -
  have "dirtyCount (dirtyInfo xs xs) = 0 \<longleftrightarrow>
      (\<forall>s\<in>set xs. \<not> (case baseMap_of xs (scene_id s) of
                          None \<Rightarrow> False | Some d \<Rightarrow> d \<noteq> description s))"
    by (simp add: dirtyCount_eq dirtyIds_eq filter_empty_conv)
  also have "\<dots> \<longleftrightarrow>
      (\<forall>s\<in>set xs. description (last (filter (\<lambda>b. scene_id b = scene_id s) xs)) = description s)"
    by (intro ball_cong refl) (auto simp: baseMap_of_eq)
  finally show ?thesis .
qed

lemma dirtyCount_same_iff:
  "dirtyCount (dirtyInfo xs xs) = 0 \<longleftrightarrow>
     (\<forall>x\<in>set xs. \<forall>y\<in>set xs. scene_id x = scene_id y \<longrightarrow> description x = description y)"
proof
  assume "dirtyCount (dirtyInfo xs xs) = 0"
  then have l: "\<forall>s\<in>set xs.
      description (last (filter (\<lambda>b. scene_id b = scene_id s) xs)) = description s"
    by (simp add: dirtyCount_same_last)
  show "\<forall>x\<in>set xs. \<forall>y\<in>set xs. scene_id x = scene_id y \<longrightarrow> description x = description y"
  proof (intro ballI impI)
    fix x y
    assume x: "x \<in> set xs" and y: "y \<in> set xs" and eq: "scene_id x = scene_id y"
    from l x have "description (last (filter (\<lambda>b. scene_id b = scene_id x) xs)) = description x"
      by (rule bspec)
    then have a: "description (last (filter (\<lambda>b. scene_id b = scene_id y) xs)) = description x"
      unfolding eq .
    from l y
    have b: "description (last (filter (\<lambda>b. scene_id b = scene_id y) xs)) = description y"
      by (rule bspec)
    from a [symmetric] b show "description x = description y"
      by (rule trans)
  qed
next
  assume c: "\<forall>x\<in>set xs. \<forall>y\<in>set xs. scene_id x = scene_id y \<longrightarrow> description x = description y"
  have "description (last (filter (\<lambda>b. scene_id b = scene_id s) xs)) = description s"
    if s: "s \<in> set xs" for s
  proof -
    let ?l = "last (filter (\<lambda>b. scene_id b = scene_id s) xs)"
    have m: "?l \<in> set xs" and i: "scene_id ?l = scene_id s"
      using last_filter_same_id [OF s] by simp_all
    from c m have "\<forall>y\<in>set xs. scene_id ?l = scene_id y \<longrightarrow> description ?l = description y"
      by (rule bspec)
    then have "scene_id ?l = scene_id s \<longrightarrow> description ?l = description s"
      using s by (rule bspec)
    then show ?thesis using i by (rule mp)
  qed
  then show "dirtyCount (dirtyInfo xs xs) = 0"
    by (simp add: dirtyCount_same_last)
qed

text \<open>
  Claim C1. An id is reported dirty exactly when a live scene carries it, the baseline
  holds it too, and the description the baseline map keeps for it (that of the last
  baseline scene with the id) is not the live scene's description. An id that no baseline
  scene carries is never reported. \<open>dirtyCount\<close> is the length of \<open>dirtyIds\<close>. When ids
  identify scenes, as the data model says, this is: some live scene and some baseline
  scene with the id have different descriptions; and \<open>dirtyIds\<close> has no repetition, so
  \<open>dirtyCount\<close> is the number of dirty ids.
\<close>

theorem dirtyInfo_marks_exactly_changed:
  "(i \<in> set (dirtyIds (dirtyInfo live base)) \<longleftrightarrow>
      (\<exists>s\<in>set live. scene_id s = i \<and> (\<exists>b\<in>set base. scene_id b = i) \<and>
         description (last (filter (\<lambda>b. scene_id b = i) base)) \<noteq> description s))
   \<and> (i \<notin> scene_id ` set base \<longrightarrow> i \<notin> set (dirtyIds (dirtyInfo live base)))
   \<and> dirtyCount (dirtyInfo live base) = length (dirtyIds (dirtyInfo live base))
   \<and> (unique_ids live \<and> unique_ids base \<longrightarrow>
        (i \<in> set (dirtyIds (dirtyInfo live base)) \<longleftrightarrow>
           (\<exists>s\<in>set live. \<exists>b\<in>set base.
              scene_id s = i \<and> scene_id b = i \<and> description s \<noteq> description b)))
   \<and> (unique_ids live \<longrightarrow>
        dirtyCount (dirtyInfo live base) = card (set (dirtyIds (dirtyInfo live base))))"
proof (intro conjI impI)
  show "i \<in> set (dirtyIds (dirtyInfo live base)) \<longleftrightarrow>
      (\<exists>s\<in>set live. scene_id s = i \<and> (\<exists>b\<in>set base. scene_id b = i) \<and>
         description (last (filter (\<lambda>b. scene_id b = i) base)) \<noteq> description s)"
    unfolding dirtyIds_member baseMap_of_eq by auto
  show "i \<notin> set (dirtyIds (dirtyInfo live base))" if "i \<notin> scene_id ` set base"
    using that unfolding dirtyIds_member baseMap_of_eq by auto
  show "dirtyCount (dirtyInfo live base) = length (dirtyIds (dirtyInfo live base))"
    by (rule dirtyCount_eq)
  show "i \<in> set (dirtyIds (dirtyInfo live base)) \<longleftrightarrow>
           (\<exists>s\<in>set live. \<exists>b\<in>set base.
              scene_id s = i \<and> scene_id b = i \<and> description s \<noteq> description b)"
    if u: "unique_ids live \<and> unique_ids base"
  proof
    assume "i \<in> set (dirtyIds (dirtyInfo live base))"
    then obtain s d where s: "s \<in> set live" "scene_id s = i"
      and d: "baseMap_of base i = Some d" "d \<noteq> description s"
      unfolding dirtyIds_member by blast
    from d(1) obtain b where b: "b \<in> set base" "scene_id b = i"
      by (auto simp: baseMap_of_eq split: if_splits)
    with u d have "description b = d"
      using baseMap_of_unique [of base b] by simp
    with s b d show "\<exists>s\<in>set live. \<exists>b\<in>set base.
        scene_id s = i \<and> scene_id b = i \<and> description s \<noteq> description b"
      by (intro bexI [of _ s] bexI [of _ b]) simp_all
  next
    assume "\<exists>s\<in>set live. \<exists>b\<in>set base.
        scene_id s = i \<and> scene_id b = i \<and> description s \<noteq> description b"
    then obtain s b where sb: "s \<in> set live" "b \<in> set base" "scene_id s = i"
        "scene_id b = i" "description s \<noteq> description b"
      by blast
    with u have "baseMap_of base i = Some (description b)"
      using baseMap_of_unique [of base b] by simp
    with sb show "i \<in> set (dirtyIds (dirtyInfo live base))"
      unfolding dirtyIds_member by (intro bexI [of _ s]) auto
  qed
  show "dirtyCount (dirtyInfo live base) = card (set (dirtyIds (dirtyInfo live base)))"
    if "unique_ids live"
    using dirtyIds_distinct [OF that, of base]
    by (simp add: dirtyCount_eq distinct_card)
qed

theorem dirtyInfo_marks_exactly_changed_witness:
  "unique_ids [scene 1 ''A2'', scene 2 ''B'']
   \<and> unique_ids [scene 1 ''A'', scene 2 ''B'']
   \<and> dirtyInfo [scene 1 ''A2'', scene 2 ''B''] [scene 1 ''A'', scene 2 ''B'']
       = \<lparr>dirtyIds = [1], dirtyCount = 1\<rparr>
   \<and> card (set (dirtyIds
         (dirtyInfo [scene 1 ''A2'', scene 2 ''B''] [scene 1 ''A'', scene 2 ''B'']))) = 1
   \<and> 3 \<notin> scene_id ` set [scene 1 ''A'', scene 2 ''B'']
   \<and> 3 \<notin> set (dirtyIds
         (dirtyInfo [scene 3 ''C'', scene 2 ''B''] [scene 1 ''A'', scene 2 ''B'']))"
  using dirtyInfo_marks_exactly_changed
      [of 1 "[scene 1 ''A2'', scene 2 ''B'']" "[scene 1 ''A'', scene 2 ''B'']"]
    dirtyInfo_marks_exactly_changed
      [of 3 "[scene 3 ''C'', scene 2 ''B'']" "[scene 1 ''A'', scene 2 ''B'']"]
  by (simp add: unique_ids_def dirtyInfo_def baseMap_of_def baseMap_set_def)

section \<open>Resynchronisation\<close>

lemma settled_success_fields:
  "scenarioId (settled p (Inr result) s) = Some (result_scenarioId result)"
  "scenes (settled p (Inr result) s) = result_scenes result"
  "baselineScenes (settled p (Inr result) s) = result_scenes result"
  "isRegenerating (settled p (Inr result) s) = False"
  "inFlight (settled p (Inr result) s) = inFlight s"
  by (cases p; simp add: handler_defs statement_defs)+

lemma settled_success_effects:
  "effects (settled p (Inr result) s) =
     effects s @
       [SetScenarioId (result_scenarioId result), SetScenes (result_scenes result),
        SetBaseline (result_scenes result), SetIsRegenerating False] @
       (case p of RegenerateAll \<Rightarrow> [] | GenerateVideo \<Rightarrow> [OnNext])"
  by (cases p; simp add: handler_defs statement_defs)

text \<open>
  Claim C2. When the call of a suspended handler, of either protocol, resolves with a
  result, the step that resumes the handler stores the result's scenario id and stores
  the result's scenes both as the live collection and as the baseline. The writes are
  consecutive entries of the log: the handler does not suspend between them, so no other
  event of a run meets a state in which one of the two collections is updated and the
  other is not. The baseline effect then finds nothing to do. The dirty computation on
  the new state counts 0 exactly when returned scenes that share an id share their
  description, and so whenever the returned ids are unique, as the data model has it.
\<close>

theorem successful_resync_commits_result:
  assumes "p \<in> set (inFlight s)"
    and "s' = step (Settled p (Inr result)) s"
  shows "scenarioId s' = Some (result_scenarioId result)
     \<and> scenes s' = result_scenes result
     \<and> baselineScenes s' = result_scenes result
     \<and> effects s' =
         effects s @
           [SetScenarioId (result_scenarioId result), SetScenes (result_scenes result),
            SetBaseline (result_scenes result), SetIsRegenerating False] @
           (case p of RegenerateAll \<Rightarrow> [] | GenerateVideo \<Rightarrow> [OnNext])
     \<and> captureBaseline s' = s'
     \<and> (dirtyCount (dirtyInfo (scenes s') (baselineScenes s')) = 0 \<longleftrightarrow>
          (\<forall>x\<in>set (result_scenes result). \<forall>y\<in>set (result_scenes result).
             scene_id x = scene_id y \<longrightarrow> description x = description y))
     \<and> (unique_ids (result_scenes result) \<longrightarrow>
          dirtyInfo (scenes s') (baselineScenes s') = \<lparr>dirtyIds = [], dirtyCount = 0\<rparr>)"
proof -
  have s': "s' = settled p (Inr result) (s\<lparr>inFlight := remove1 p (inFlight s)\<rparr>)"
    using assms by simp
  have f: "scenarioId s' = Some (result_scenarioId result)"
    "scenes s' = result_scenes result" "baselineScenes s' = result_scenes result"
    unfolding s' by (simp_all add: settled_success_fields)
  have e: "effects s' =
         effects s @
           [SetScenarioId (result_scenarioId result), SetScenes (result_scenes result),
            SetBaseline (result_scenes result), SetIsRegenerating False] @
           (case p of RegenerateAll \<Rightarrow> [] | GenerateVideo \<Rightarrow> [OnNext])"
    unfolding s' by (simp add: settled_success_effects)
  have c: "captureBaseline s' = s'"
    using f by (simp add: captureBaseline_def)
  have d: "dirtyInfo (scenes s') (baselineScenes s') = \<lparr>dirtyIds = [], dirtyCount = 0\<rparr>"
    if "unique_ids (result_scenes result)"
    using that f by (simp add: dirtyInfo_same)
  have i: "dirtyCount (dirtyInfo (scenes s') (baselineScenes s')) = 0 \<longleftrightarrow>
          (\<forall>x\<in>set (result_scenes result). \<forall>y\<in>set (result_scenes result).
             scene_id x = scene_id y \<longrightarrow> description x = description y)"
    unfolding f by (rule dirtyCount_same_iff)
  from f e c d i show ?thesis by simp
qed

text \<open>
  The scenario of the specification: the edited state of the sample, Protocol B, and a
  remote answer \<open>s2\<close> with the scenes \<open>A2\<close> and \<open>B\<close>.
\<close>

theorem successful_resync_commits_result_witness:
  "GenerateVideo \<in> set (inFlight (handleGenerateVideoClick True edited_state))
   \<and> unique_ids (result_scenes synced_result)
   \<and> scenarioId (step (Settled GenerateVideo (Inr synced_result))
        (handleGenerateVideoClick True edited_state)) = Some ''s2''
   \<and> scenes (step (Settled GenerateVideo (Inr synced_result))
        (handleGenerateVideoClick True edited_state)) = [scene 1 ''A2'', scene 2 ''B'']
   \<and> baselineScenes (step (Settled GenerateVideo (Inr synced_result))
        (handleGenerateVideoClick True edited_state)) = [scene 1 ''A2'', scene 2 ''B'']
   \<and> dirtyCount (dirtyInfo
        (scenes (step (Settled GenerateVideo (Inr synced_result))
           (handleGenerateVideoClick True edited_state)))
        (baselineScenes (step (Settled GenerateVideo (Inr synced_result))
           (handleGenerateVideoClick True edited_state)))) = 0"
proof -
  have a: "GenerateVideo \<in> set (inFlight (handleGenerateVideoClick True edited_state))"
    by (simp add: handler_defs statement_defs dirtyInfo_def baseMap_of_def baseMap_set_def)
  have u: "unique_ids (result_scenes synced_result)"
    by (simp add: unique_ids_def)
  show ?thesis
    using successful_resync_commits_result [OF a refl, of synced_result] a u
    by (simp add: handler_defs statement_defs dirtyInfo_def baseMap_of_def baseMap_set_def)
qed

text \<open>
  Claim C3 as stated fails. With a scenario id, no dirty scene, an editor open and the
  user declining to go on without saving, the handler asks its question and returns:
  \<open>onNext\<close> is not called.
\<close>

theorem clean_advance_blocked_by_open_edit:
  "hasScenarioId editing_clean_state
   \<and> dirtyCount (dirtyInfo (scenes editing_clean_state) (baselineScenes editing_clean_state)) = 0
   \<and> OnNext \<notin> set (effects (handleGenerateVideoClick False editing_clean_state))
   \<and> effects (handleGenerateVideoClick False editing_clean_state) =
       [Confirm ConfirmDiscardEdit False]"
  by (simp add: handler_defs statement_defs dirtyInfo_def baseMap_of_def baseMap_set_def)

text \<open>
  Claim C3, amended. With a scenario id and no dirty scene, the handler issues no remote
  call and leaves the live collection, the baseline, the scenario id, the suspended
  handlers and the flag as they are. It calls \<open>onNext\<close> at once when no editor is open,
  and after its question when an editor is open and the user agrees to go on without
  saving; when the user declines, the question is all that happens.
\<close>

theorem clean_advance_makes_no_remote_call:
  assumes "hasScenarioId s"
    and "dirtyCount (dirtyInfo (scenes s) (baselineScenes s)) = 0"
    and "s' = handleGenerateVideoClick ok s"
  shows "scenes s' = scenes s \<and> baselineScenes s' = baselineScenes s
     \<and> scenarioId s' = scenarioId s \<and> inFlight s' = inFlight s
     \<and> isRegenerating s' = isRegenerating s
     \<and> effects s' = effects s @
          (if editingSceneId s = None then [OnNext]
           else if ok then [Confirm ConfirmDiscardEdit True, OnNext]
           else [Confirm ConfirmDiscardEdit False])"
proof -
  from assms(1) obtain sid where sid: "scenarioId s = Some sid" "sid \<noteq> []"
    by (auto simp: hasScenarioId_def split: option.splits)
  show ?thesis
  proof (cases "editingSceneId s")
    case None
    with sid assms(2,3) show ?thesis
      by (simp add: handleGenerateVideoClick_def statement_defs)
  next
    case (Some eid)
    with sid assms(2,3) show ?thesis
      by (cases ok) (simp_all add: handleGenerateVideoClick_def statement_defs)
  qed
qed

theorem clean_advance_makes_no_remote_call_witness:
  "hasScenarioId clean_state
   \<and> dirtyCount (dirtyInfo (scenes clean_state) (baselineScenes clean_state)) = 0
   \<and> scenes (handleGenerateVideoClick True clean_state) = scenes clean_state
   \<and> baselineScenes (handleGenerateVideoClick True clean_state) = baselineScenes clean_state
   \<and> scenarioId (handleGenerateVideoClick True clean_state) = Some ''s1''
   \<and> effects (handleGenerateVideoClick True clean_state) = [OnNext]"
proof -
  have h: "hasScenarioId clean_state"
    by (simp add: hasScenarioId_def)
  have d: "dirtyCount (dirtyInfo (scenes clean_state) (baselineScenes clean_state)) = 0"
    by (simp add: dirtyInfo_def baseMap_of_def baseMap_set_def)
  show ?thesis
    using clean_advance_makes_no_remote_call [OF h d refl, of True] h d
    by (simp add: handler_defs statement_defs dirtyInfo_def baseMap_of_def baseMap_set_def
      toSceneInputs_def)
qed

lemma generateVideoSettled_failure:
  "scenes (generateVideoSettled (Inl err) t) = scenes t"
  "baselineScenes (generateVideoSettled (Inl err) t) = baselineScenes t"
  "scenarioId (generateVideoSettled (Inl err) t) = scenarioId t"
  "isRegenerating (generateVideoSettled (Inl err) t) = False"
  "effects (generateVideoSettled (Inl err) t) =
     effects t @ [ConsoleError GenerateVideo, Alert AutoRegenerateFailed, SetIsRegenerating False]"
  by (simp_all add: generateVideoSettled_def statement_defs)

text \<open>
  Claim C4. Take an attempt of Protocol B that issues the remote call: a scenario id, no
  editor left open, at least one dirty scene. Up to the call the handler changes neither
  the live collection nor the baseline nor the scenario id. When the call fails, the
  three have the values from before the attempt, the flag is cleared, the failure is
  written to the console and shown in an alert, and \<open>onNext\<close> is not called. The last
  conjunct says the same of the failure branch resumed in any state \<open>t\<close>, for instance
  after edits made while the call was pending.
\<close>

theorem failed_incremental_sync_keeps_state:
  assumes "scenarioId s = Some sid" and "sid \<noteq> []"
    and "editingSceneId s = None \<or> ok"
    and "dirtyCount (dirtyInfo (scenes s) (baselineScenes s)) > 0"
    and "s1 = handleGenerateVideoClick ok s"
    and "s2 = step (Settled GenerateVideo (Inl err)) s1"
  shows "inFlight s1 = inFlight s @ [GenerateVideo]
     \<and> scenes s1 = scenes s \<and> baselineScenes s1 = baselineScenes s
     \<and> scenarioId s1 = scenarioId s
     \<and> scenes s2 = scenes s \<and> baselineScenes s2 = baselineScenes s
     \<and> scenarioId s2 = scenarioId s \<and> \<not> isRegenerating s2
     \<and> effects s2 = effects s @
          (if editingSceneId s = None then [] else [Confirm ConfirmDiscardEdit True]) @
          [SetIsRegenerating True,
           RegenerateCall \<lparr>req_scenarioId = sid, req_scenes = toSceneInputs (scenes s),
             req_characterImageUrl = characterImageUrl s\<rparr>,
           ConsoleError GenerateVideo, Alert AutoRegenerateFailed, SetIsRegenerating False]
     \<and> OnNext \<notin> set (drop (length (effects s)) (effects s2))
     \<and> (\<forall>t. scenes (generateVideoSettled (Inl err) t) = scenes t
            \<and> baselineScenes (generateVideoSettled (Inl err) t) = baselineScenes t
            \<and> scenarioId (generateVideoSettled (Inl err) t) = scenarioId t
            \<and> effects (generateVideoSettled (Inl err) t) =
                effects t @ [ConsoleError GenerateVideo, Alert AutoRegenerateFailed,
                             SetIsRegenerating False])"
proof -
  have s1: "inFlight s1 = inFlight s @ [GenerateVideo]"
    "scenes s1 = scenes s" "baselineScenes s1 = baselineScenes s" "scenarioId s1 = scenarioId s"
    "effects s1 = effects s @
          (if editingSceneId s = None then [] else [Confirm ConfirmDiscardEdit True]) @
          [SetIsRegenerating True,
           RegenerateCall \<lparr>req_scenarioId = sid, req_scenes = toSceneInputs (scenes s),
             req_characterImageUrl = characterImageUrl s\<rparr>]"
    using assms(1-5) by (auto simp: handleGenerateVideoClick_def statement_defs)
  have s2: "s2 = generateVideoSettled (Inl err) (s1\<lparr>inFlight := remove1 GenerateVideo (inFlight s1)\<rparr>)"
    using assms(6) s1(1) by (simp add: settled_def)
  have f: "scenes s2 = scenes s" "baselineScenes s2 = baselineScenes s"
    "scenarioId s2 = scenarioId s" "\<not> isRegenerating s2"
    unfolding s2 by (simp_all add: generateVideoSettled_failure s1)
  have e: "effects s2 = effects s @
          (if editingSceneId s = None then [] else [Confirm ConfirmDiscardEdit True]) @
          [SetIsRegenerating True,
           RegenerateCall \<lparr>req_scenarioId = sid, req_scenes = toSceneInputs (scenes s),
             req_characterImageUrl = characterImageUrl s\<rparr>,
           ConsoleError GenerateVideo, Alert AutoRegenerateFailed, SetIsRegenerating False]"
    unfolding s2 by (simp add: generateVideoSettled_failure s1)
  have n: "OnNext \<notin> set (drop (length (effects s)) (effects s2))"
    unfolding e by simp
  from s1 f e n show ?thesis
    by (simp add: generateVideoSettled_failure)
qed

theorem failed_incremental_sync_keeps_state_witness:
  "scenarioId edited_state = Some ''s1'' \<and> ''s1'' \<noteq> []
   \<and> (editingSceneId edited_state = None \<or> True)
   \<and> dirtyCount (dirtyInfo (scenes edited_state) (baselineScenes edited_state)) > 0
   \<and> scenes (step (Settled GenerateVideo (Inl ''503''))
        (handleGenerateVideoClick True edited_state)) = [scene 1 ''A2'', scene 2 ''B'']
   \<and> baselineScenes (step (Settled GenerateVideo (Inl ''503''))
        (handleGenerateVideoClick True edited_state)) = [scene 1 ''A'', scene 2 ''B'']
   \<and> scenarioId (step (Settled GenerateVideo (Inl ''503''))
        (handleGenerateVideoClick True edited_state)) = Some ''s1''
   \<and> effects (step (Settled GenerateVideo (Inl ''503''))
        (handleGenerateVideoClick True edited_state)) =
       [SetIsRegenerating True,
        RegenerateCall \<lparr>req_scenarioId = ''s1'',
          req_scenes = [\<lparr>scene_id = 1, description = ''A2''\<rparr>,
                        \<lparr>scene_id = 2, description = ''B''\<rparr>],
          req_characterImageUrl = ''c.png''\<rparr>,
        ConsoleError GenerateVideo, Alert AutoRegenerateFailed, SetIsRegenerating False]"
proof -
  have a: "scenarioId edited_state = Some ''s1''" "''s1'' \<noteq> []"
    "editingSceneId edited_state = None \<or> True"
    by simp_all
  have d: "dirtyCount (dirtyInfo (scenes edited_state) (baselineScenes edited_state)) > 0"
    by (simp add: dirtyInfo_def baseMap_of_def baseMap_set_def)
  show ?thesis
    using failed_incremental_sync_keeps_state [OF a d refl refl, of "''503''"] a d
    by (simp add: handler_defs statement_defs dirtyInfo_def baseMap_of_def baseMap_set_def
      toSceneInputs_def)
qed

text \<open>
  Claim C5. Take Protocol A with a scenario id and the confirmation accepted, and let
  \<open>src\<close> be the baseline if it is not empty and the live collection otherwise. The
  handler logs, in this order, the confirmation, the flag set, the live collection set to
  \<open>src\<close>, and the remote call with the id and description of each scene of \<open>src\<close>; it
  is then suspended with the live collection equal to \<open>src\<close> and the baseline as before.
  When the call fails, the live collection is still \<open>src\<close>, the baseline and the
  scenario id are untouched, and the failure branch logs the console line, the alert and
  the flag cleared.
\<close>

theorem full_regenerate_resets_before_call:
  assumes "scenarioId s = Some sid" and "sid \<noteq> []"
    and "src = (if baselineScenes s \<noteq> [] then baselineScenes s else scenes s)"
    and "s1 = handleRegenerateAll True s"
    and "s2 = step (Settled RegenerateAll (Inl err)) s1"
  shows "effects s1 = effects s @
          [Confirm ConfirmRegenerateAll True, SetIsRegenerating True, SetScenes src,
           RegenerateCall \<lparr>req_scenarioId = sid, req_scenes = toSceneInputs src,
             req_characterImageUrl = characterImageUrl s\<rparr>]
     \<and> scenes s1 = src \<and> baselineScenes s1 = baselineScenes s
     \<and> inFlight s1 = inFlight s @ [RegenerateAll]
     \<and> scenes s2 = src \<and> baselineScenes s2 = baselineScenes s
     \<and> scenarioId s2 = scenarioId s
     \<and> effects s2 = effects s1 @
          [ConsoleError RegenerateAll, Alert RegenerateAllFailed, SetIsRegenerating False]"
proof -
  have s1: "effects s1 = effects s @
          [Confirm ConfirmRegenerateAll True, SetIsRegenerating True, SetScenes src,
           RegenerateCall \<lparr>req_scenarioId = sid, req_scenes = toSceneInputs src,
             req_characterImageUrl = characterImageUrl s\<rparr>]"
    "scenes s1 = src" "baselineScenes s1 = baselineScenes s"
    "inFlight s1 = inFlight s @ [RegenerateAll]" "scenarioId s1 = scenarioId s"
    using assms(1-4)
    by (simp_all add: handleRegenerateAll_def regenerateAllSource_def statement_defs Let_def)
  have s2: "s2 = regenerateAllSettled (Inl err) (s1\<lparr>inFlight := remove1 RegenerateAll (inFlight s1)\<rparr>)"
    using assms(5) s1(4) by (simp add: settled_def)
  have f: "scenes s2 = src" "baselineScenes s2 = baselineScenes s" "scenarioId s2 = scenarioId s"
    "effects s2 = effects s1 @
          [ConsoleError RegenerateAll, Alert RegenerateAllFailed, SetIsRegenerating False]"
    unfolding s2 using s1(2,3,5) by (simp_all add: regenerateAllSettled_def statement_defs)
  from s1 f show ?thesis by simp
qed

theorem full_regenerate_resets_before_call_witness:
  "scenarioId edited_state = Some ''s1'' \<and> ''s1'' \<noteq> []
   \<and> effects (handleRegenerateAll True edited_state) =
       [Confirm ConfirmRegenerateAll True, SetIsRegenerating True,
        SetScenes [scene 1 ''A'', scene 2 ''B''],
        RegenerateCall \<lparr>req_scenarioId = ''s1'',
          req_scenes = [\<lparr>scene_id = 1, description = ''A''\<rparr>,
                        \<lparr>scene_id = 2, description = ''B''\<rparr>],
          req_characterImageUrl = ''c.png''\<rparr>]
   \<and> scenes (handleRegenerateAll True edited_state) = [scene 1 ''A'', scene 2 ''B'']
   \<and> scenes (step (Settled RegenerateAll (Inl ''503'')) (handleRegenerateAll True edited_state))
       = [scene 1 ''A'', scene 2 ''B'']
   \<and> baselineScenes (step (Settled RegenerateAll (Inl ''503''))
        (handleRegenerateAll True edited_state)) = [scene 1 ''A'', scene 2 ''B'']"
proof -
  have a: "scenarioId edited_state = Some ''s1''" "''s1'' \<noteq> []"
    by simp_all
  show ?thesis
    using full_regenerate_resets_before_call [OF a refl refl refl, of "''503''"] a
    by (simp add: handler_defs statement_defs dirtyInfo_def baseMap_of_def baseMap_set_def
      toSceneInputs_def)
qed

section \<open>The in-progress flag\<close>

lemma callsGuarded_append:
  "callsGuarded f (es @ es') \<longleftrightarrow> callsGuarded f es \<and> callsGuarded (flagAfter f es) es'"
  by (induction f es rule: callsGuarded.induct) auto

lemma flagAfter_append: "flagAfter f (es @ es') = flagAfter (flagAfter f es) es'"
  by (induction f es rule: flagAfter.induct) auto

lemma guardInv_mounted: "mounted s \<Longrightarrow> guardInv s"
  by (simp add: mounted_def guardInv_def)

lemma guardInv_idle: "guardInv s \<Longrightarrow> \<not> isRegenerating s \<Longrightarrow> inFlight s = []"
  by (simp add: guardInv_def)

lemma guardInv_handleRegenerateAll:
  assumes "guardInv s" and "\<not> isRegenerating s"
  shows "guardInv (handleRegenerateAll ok s)"
  using assms
  by (simp add: guardInv_def handleRegenerateAll_def statement_defs Let_def
      callsGuarded_append flagAfter_append split: option.splits)

lemma guardInv_handleGenerateVideoClick:
  assumes "guardInv s" and "\<not> isRegenerating s"
  shows "guardInv (handleGenerateVideoClick ok s)"
  using assms
  by (simp add: guardInv_def handleGenerateVideoClick_def statement_defs Let_def
      callsGuarded_append flagAfter_append split: option.splits)

lemma guardInv_settled:
  assumes "guardInv s" and "p \<in> set (inFlight s)"
  shows "guardInv (settled p outcome (s\<lparr>inFlight := remove1 p (inFlight s)\<rparr>))"
proof -
  from assms have "inFlight s = [p]"
    by (cases "inFlight s") (auto simp: guardInv_def)
  with assms(1) show ?thesis
    by (cases p; cases outcome)
       (simp_all add: guardInv_def settled_def regenerateAllSettled_def
          generateVideoSettled_def statement_defs callsGuarded_append flagAfter_append)
qed

lemma guardInv_step:
  assumes "guardInv s"
  shows "guardInv (step e s)"
proof (cases e)
  case ScenesEffect
  with assms show ?thesis
    by (simp add: guardInv_def captureBaseline_def emit_def callsGuarded_append flagAfter_append)
next
  case (EditScene i d)
  with assms show ?thesis by (simp add: guardInv_def handleEditScene_def)
next
  case (TypeDescription t)
  with assms show ?thesis by (simp add: guardInv_def)
next
  case SaveEdit
  with assms show ?thesis
    by (simp add: guardInv_def handleSaveEdit_def statement_defs callsGuarded_append
        flagAfter_append split: option.splits)
next
  case CancelEdit
  with assms show ?thesis by (simp add: guardInv_def handleCancelEdit_def)
next
  case (ClickRegenerateAll ok)
  with assms show ?thesis
    by (simp add: clickRegenerateAll_def isRegenAllDisabled_def guardInv_handleRegenerateAll)
next
  case (ClickGenerateVideo ok)
  with assms show ?thesis
    by (simp add: clickGenerateVideo_def guardInv_handleGenerateVideoClick)
next
  case (Settled p outcome)
  with assms show ?thesis
    by (simp add: guardInv_settled)
qed

lemma guardInv_run: "guardInv s \<Longrightarrow> guardInv (run es s)"
  unfolding run_def by (induction es arbitrary: s) (simp_all add: guardInv_step)

lemma settled_clears_flag: "isRegenerating (settled p outcome s) = False"
  by (cases p; cases outcome)
     (simp_all add: settled_def regenerateAllSettled_def generateVideoSettled_def statement_defs)

text \<open>
  Claim C6. While the flag is set, a click on either button changes nothing: no question,
  no remote call, no state change, because both buttons are disabled by the flag. (The
  handlers themselves do not read the flag.) The branch run when a call settles clears
  the flag, whatever the outcome. In every run of the mounted screen at most one handler
  is suspended at a remote call, the flag is set exactly while one is, and every remote
  call in the log is issued after a write that set the flag and before any write that
  cleared it.
\<close>

theorem single_resync_in_flight:
  "(isRegenerating s \<longrightarrow>
      step (ClickRegenerateAll ok) s = s \<and> step (ClickGenerateVideo ok) s = s)
   \<and> \<not> isRegenerating (settled p outcome s)
   \<and> (mounted s0 \<longrightarrow>
        length (inFlight (run es s0)) \<le> 1
        \<and> (isRegenerating (run es s0) \<longleftrightarrow> inFlight (run es s0) \<noteq> [])
        \<and> callsGuarded False (effects (run es s0)))"
proof (intro conjI impI)
  assume "isRegenerating s"
  then show "step (ClickRegenerateAll ok) s = s" "step (ClickGenerateVideo ok) s = s"
    by (simp_all add: clickRegenerateAll_def clickGenerateVideo_def isRegenAllDisabled_def)
next
  show "\<not> isRegenerating (settled p outcome s)"
    by (simp add: settled_clears_flag)
next
  assume "mounted s0"
  then have "guardInv (run es s0)"
    by (simp add: guardInv_mounted guardInv_run)
  then show "length (inFlight (run es s0)) \<le> 1"
    "isRegenerating (run es s0) \<longleftrightarrow> inFlight (run es s0) \<noteq> []"
    "callsGuarded False (effects (run es s0))"
    by (simp_all add: guardInv_def)
qed

theorem single_resync_in_flight_witness:
  "isRegenerating (handleGenerateVideoClick True edited_state)
   \<and> step (ClickRegenerateAll True) (handleGenerateVideoClick True edited_state) =
       handleGenerateVideoClick True edited_state
   \<and> step (ClickGenerateVideo True) (handleGenerateVideoClick True edited_state) =
       handleGenerateVideoClick True edited_state
   \<and> mounted mounted_state
   \<and> inFlight (run [ScenesEffect, EditScene 1 ''A'', TypeDescription ''A2'', SaveEdit,
        ClickGenerateVideo True, ClickRegenerateAll True, ClickGenerateVideo True]
        mounted_state) = [GenerateVideo]
   \<and> isRegenerating (run [ScenesEffect, EditScene 1 ''A'', TypeDescription ''A2'', SaveEdit,
        ClickGenerateVideo True, ClickRegenerateAll True, ClickGenerateVideo True]
        mounted_state)
   \<and> callsGuarded False (effects (run [ScenesEffect, EditScene 1 ''A'',
        TypeDescription ''A2'', SaveEdit, ClickGenerateVideo True, ClickRegenerateAll True,
        ClickGenerateVideo True] mounted_state))"
proof -
  have f: "isRegenerating (handleGenerateVideoClick True edited_state)"
    by (simp add: eval_defs)
  have m: "mounted mounted_state"
    by (simp add: mounted_def)
  have r: "inFlight (run [ScenesEffect, EditScene 1 ''A'', TypeDescription ''A2'', SaveEdit,
        ClickGenerateVideo True, ClickRegenerateAll True, ClickGenerateVideo True]
        mounted_state) = [GenerateVideo]"
    by (simp add: eval_defs)
  show ?thesis
    using single_resync_in_flight
      [of "handleGenerateVideoClick True edited_state" True GenerateVideo "Inl ''x''"
        mounted_state
        "[ScenesEffect, EditScene 1 ''A'', TypeDescription ''A2'', SaveEdit,
          ClickGenerateVideo True, ClickRegenerateAll True, ClickGenerateVideo True]"]
      f m r
    by simp
qed

section \<open>The baseline\<close>

lemma captureCount_emit:
  "captureCount (emit e s) = captureCount s + (if isCapture e then 1 else 0)"
  by (simp add: captureCount_def emit_def)

lemma captureCount_other:
  assumes "e \<noteq> ScenesEffect"
  shows "captureCount (step e s) = captureCount s"
proof (cases e)
  case ScenesEffect
  with assms show ?thesis by simp
next
  case (EditScene i d)
  then show ?thesis by (simp add: captureCount_def handleEditScene_def)
next
  case (TypeDescription t)
  then show ?thesis by (simp add: captureCount_def)
next
  case SaveEdit
  then show ?thesis
    by (simp add: captureCount_def handleSaveEdit_def statement_defs split: option.splits)
next
  case CancelEdit
  then show ?thesis by (simp add: captureCount_def handleCancelEdit_def)
next
  case (ClickRegenerateAll ok)
  then show ?thesis
    by (simp add: captureCount_def clickRegenerateAll_def handleRegenerateAll_def
        statement_defs Let_def split: option.splits)
next
  case (ClickGenerateVideo ok)
  then show ?thesis
    by (simp add: captureCount_def clickGenerateVideo_def handleGenerateVideoClick_def
        statement_defs Let_def split: option.splits)
next
  case (Settled p outcome)
  then show ?thesis
    by (cases p; cases outcome)
       (simp_all add: captureCount_def settled_def regenerateAllSettled_def
          generateVideoSettled_def statement_defs)
qed

lemma captureBaseline_spent:
  "captureSpent s \<Longrightarrow> captureBaseline s = s"
  by (auto simp: captureSpent_def captureBaseline_def)

lemma captureBaseline_fires:
  assumes "\<not> captureSpent s"
  shows "captureCount (captureBaseline s) = captureCount s + 1"
    and "captureSpent (captureBaseline s)"
  using assms
  by (auto simp: captureSpent_def captureBaseline_def captureCount_def emit_def)

lemma captureSpent_step:
  assumes "captureSpent s"
  shows "captureSpent (step e s)"
proof (cases e)
  case ScenesEffect
  with assms show ?thesis by (simp add: captureBaseline_spent)
next
  case (EditScene i d)
  with assms show ?thesis by (simp add: captureSpent_def handleEditScene_def)
next
  case (TypeDescription t)
  with assms show ?thesis by (simp add: captureSpent_def)
next
  case SaveEdit
  with assms show ?thesis
    by (simp add: captureSpent_def handleSaveEdit_def statement_defs split: option.splits)
next
  case CancelEdit
  with assms show ?thesis by (simp add: captureSpent_def handleCancelEdit_def)
next
  case (ClickRegenerateAll ok)
  with assms show ?thesis
    by (simp add: captureSpent_def clickRegenerateAll_def handleRegenerateAll_def
        regenerateAllSource_def statement_defs Let_def split: option.splits)
next
  case (ClickGenerateVideo ok)
  with assms show ?thesis
    by (simp add: captureSpent_def clickGenerateVideo_def handleGenerateVideoClick_def
        statement_defs Let_def split: option.splits)
next
  case (Settled p outcome)
  with assms show ?thesis
    by (cases p; cases outcome)
       (simp_all add: captureSpent_def settled_def regenerateAllSettled_def
          generateVideoSettled_def statement_defs)
qed

lemma captureCount_step_spent:
  assumes "captureSpent s"
  shows "captureCount (step e s) = captureCount s"
proof (cases "e = ScenesEffect")
  case True
  with assms show ?thesis by (simp add: captureBaseline_spent)
next
  case False
  then show ?thesis by (rule captureCount_other)
qed

lemma captureCount_run_spent:
  "captureSpent s \<Longrightarrow> captureCount (run es s) = captureCount s"
  unfolding run_def
proof (induction es arbitrary: s)
  case Nil
  show ?case by simp
next
  case (Cons e es)
  from Cons.prems have "captureSpent (step e s)"
    by (rule captureSpent_step)
  then have "captureCount (fold step es (step e s)) = captureCount (step e s)"
    by (rule Cons.IH)
  with Cons.prems show ?case
    by (simp add: captureCount_step_spent)
qed

lemma captureCount_run: "captureCount (run es s) \<le> captureCount s + 1"
proof (induction es arbitrary: s)
  case Nil
  show ?case by (simp add: run_def)
next
  case (Cons e es)
  have unfold: "run (e # es) s = run es (step e s)"
    by (simp add: run_def)
  show ?case
  proof (cases "captureSpent s")
    case True
    then show ?thesis by (simp add: captureCount_run_spent)
  next
    case unspent: False
    show ?thesis
    proof (cases "e = ScenesEffect")
      case True
      with unspent have "captureSpent (step e s)" "captureCount (step e s) = captureCount s + 1"
        by (simp_all add: captureBaseline_fires)
      then show ?thesis
        unfolding unfold by (simp add: captureCount_run_spent)
    next
      case False
      then have "captureCount (step e s) = captureCount s"
        by (rule captureCount_other)
      with Cons.IH [of "step e s"] show ?thesis
        unfolding unfold by simp
    qed
  qed
qed

lemma baseline_kept_by_step:
  assumes "baselineScenes s \<noteq> []"
    and "\<nexists>p result. e = Settled p (Inr result) \<and> p \<in> set (inFlight s)"
  shows "baselineScenes (step e s) = baselineScenes s"
proof (cases e)
  case ScenesEffect
  with assms(1) show ?thesis by (simp add: captureBaseline_def)
next
  case (EditScene i d)
  then show ?thesis by (simp add: handleEditScene_def)
next
  case (TypeDescription t)
  then show ?thesis by simp
next
  case SaveEdit
  then show ?thesis
    by (simp add: handleSaveEdit_def statement_defs split: option.splits)
next
  case CancelEdit
  then show ?thesis by (simp add: handleCancelEdit_def)
next
  case (ClickRegenerateAll ok)
  then show ?thesis
    by (simp add: clickRegenerateAll_def handleRegenerateAll_def statement_defs Let_def
        split: option.splits)
next
  case (ClickGenerateVideo ok)
  then show ?thesis
    by (simp add: clickGenerateVideo_def handleGenerateVideoClick_def statement_defs Let_def
        split: option.splits)
next
  case (Settled p outcome)
  show ?thesis
  proof (cases outcome)
    case (Inl err)
    with Settled show ?thesis
      by (cases p)
         (simp_all add: settled_def regenerateAllSettled_def generateVideoSettled_def
            statement_defs)
  next
    case (Inr result)
    with Settled assms(2) have "p \<notin> set (inFlight s)" by simp
    with Settled show ?thesis by simp
  qed
qed

text \<open>
  Claim C7. The baseline effect writes the baseline only when it is empty and the live
  collection is not, and writes the live collection; running it again changes nothing.
  Saving an edit does not touch the baseline. A step of the screen that changes a
  non-empty baseline is a suspended handler's call resolving with a result. In any run,
  from any state, the baseline effect writes at most once; from the mounted screen the
  log therefore holds at most one such write.
\<close>

theorem baseline_written_once_then_only_by_resync:
  "baselineScenes (captureBaseline s) =
      (if baselineScenes s = [] \<and> scenes s \<noteq> [] then scenes s else baselineScenes s)
   \<and> captureBaseline (captureBaseline s) = captureBaseline s
   \<and> baselineScenes (handleSaveEdit s) = baselineScenes s
   \<and> (baselineScenes s \<noteq> [] \<and> baselineScenes (step e s) \<noteq> baselineScenes s \<longrightarrow>
        (\<exists>p result. e = Settled p (Inr result) \<and> p \<in> set (inFlight s)))
   \<and> captureCount (run es s) \<le> captureCount s + 1
   \<and> (mounted s0 \<longrightarrow> captureCount (run es s0) \<le> 1)"
proof (intro conjI impI)
  show "baselineScenes (captureBaseline s) =
      (if baselineScenes s = [] \<and> scenes s \<noteq> [] then scenes s else baselineScenes s)"
    by (simp add: captureBaseline_def emit_def)
  show "captureBaseline (captureBaseline s) = captureBaseline s"
    by (simp add: captureBaseline_def emit_def)
  show "baselineScenes (handleSaveEdit s) = baselineScenes s"
    by (simp add: handleSaveEdit_def statement_defs split: option.splits)
  show "\<exists>p result. e = Settled p (Inr result) \<and> p \<in> set (inFlight s)"
    if "baselineScenes s \<noteq> [] \<and> baselineScenes (step e s) \<noteq> baselineScenes s"
    using that baseline_kept_by_step [of s e] by metis
  show "captureCount (run es s) \<le> captureCount s + 1"
    by (rule captureCount_run)
  show "captureCount (run es s0) \<le> 1" if "mounted s0"
    using that captureCount_run [of es s0] by (simp add: mounted_def captureCount_def)
qed

theorem baseline_written_once_then_only_by_resync_witness:
  "baselineScenes (handleGenerateVideoClick True edited_state) \<noteq> []
   \<and> baselineScenes (step (Settled GenerateVideo (Inr synced_result))
        (handleGenerateVideoClick True edited_state)) \<noteq>
       baselineScenes (handleGenerateVideoClick True edited_state)
   \<and> GenerateVideo \<in> set (inFlight (handleGenerateVideoClick True edited_state))
   \<and> mounted mounted_state
   \<and> baselineScenes (run [ScenesEffect, EditScene 1 ''A'', TypeDescription ''A2'', SaveEdit,
        ScenesEffect] mounted_state) = [scene 1 ''A'', scene 2 ''B'']
   \<and> captureCount (run [ScenesEffect, EditScene 1 ''A'', TypeDescription ''A2'', SaveEdit,
        ScenesEffect] mounted_state) = 1"
proof -
  have a: "baselineScenes (handleGenerateVideoClick True edited_state) \<noteq> []"
    "baselineScenes (step (Settled GenerateVideo (Inr synced_result))
        (handleGenerateVideoClick True edited_state)) \<noteq>
       baselineScenes (handleGenerateVideoClick True edited_state)"
    by (simp_all add: eval_defs)
  have m: "mounted mounted_state"
    by (simp add: mounted_def)
  have r: "baselineScenes (run [ScenesEffect, EditScene 1 ''A'', TypeDescription ''A2'',
        SaveEdit, ScenesEffect] mounted_state) = [scene 1 ''A'', scene 2 ''B'']"
    "captureCount (run [ScenesEffect, EditScene 1 ''A'', TypeDescription ''A2'', SaveEdit,
        ScenesEffect] mounted_state) = 1"
    by (simp_all add: eval_defs captureCount_def)
  show ?thesis
    using baseline_written_once_then_only_by_resync
      [of "handleGenerateVideoClick True edited_state"
        "Settled GenerateVideo (Inr synced_result)"
        "[ScenesEffect, EditScene 1 ''A'', TypeDescription ''A2'', SaveEdit, ScenesEffect]"
        mounted_state]
      a m r
    by auto
qed

section \<open>The service: error messages\<close>

lemma orElse_cases:
  "orElse a b = (if falsy a then b else (case a of Some v \<Rightarrow> v | None \<Rightarrow> b))"
  by (simp add: orElse_def falsy_def split: option.splits)







section \<open>Saving an edit\<close>

text \<open>
  For an editing id other than 0, saving replaces the description of each scene with that
  id and nothing else: the other fields of the scene, the other scenes, the length and
  the order of the collection stay, and a collection without the id is left as it is.
\<close>

lemma handleSaveEdit_nonzero:
  assumes "editingSceneId s = Some eid" and "eid \<noteq> 0"
  shows "scenes (handleSaveEdit s) =
      map (\<lambda>x. if scene_id x = eid then x\<lparr>description := editedDescription s\<rparr> else x) (scenes s)"
    and "length (scenes (handleSaveEdit s)) = length (scenes s)"
    and "map scene_id (scenes (handleSaveEdit s)) = map scene_id (scenes s)"
    and "eid \<notin> scene_id ` set (scenes s) \<Longrightarrow> scenes (handleSaveEdit s) = scenes s"
    and "editingSceneId (handleSaveEdit s) = None"
proof -
  show m: "scenes (handleSaveEdit s) =
      map (\<lambda>x. if scene_id x = eid then x\<lparr>description := editedDescription s\<rparr> else x) (scenes s)"
    using assms by (simp add: handleSaveEdit_def statement_defs)
  show "length (scenes (handleSaveEdit s)) = length (scenes s)"
    unfolding m by simp
  show "map scene_id (scenes (handleSaveEdit s)) = map scene_id (scenes s)"
    unfolding m by (simp add: comp_def)
  show "scenes (handleSaveEdit s) = scenes s" if "eid \<notin> scene_id ` set (scenes s)"
    unfolding m using that by (intro map_idI) auto
  show "editingSceneId (handleSaveEdit s) = None"
    using assms by (simp add: handleSaveEdit_def statement_defs)
qed

text \<open>
  Claim C9 fails for the scene id 0. The user opens the editor of scene 0, types \<open>A2\<close>
  and saves: \<open>if (editingSceneId)\<close> takes the id 0 for "no scene", the description stays
  \<open>A\<close> and the editor stays open. The same three actions on scene 1 replace its
  description and close the editor.
\<close>

theorem handleSaveEdit_skips_scene_zero:
  "scenes (run [EditScene 0 ''A'', TypeDescription ''A2'', SaveEdit] zero_id_state) =
     [scene 0 ''A'', scene 1 ''B'']
   \<and> editingSceneId (run [EditScene 0 ''A'', TypeDescription ''A2'', SaveEdit] zero_id_state) =
       Some 0
   \<and> scenes (run [EditScene 1 ''B'', TypeDescription ''B2'', SaveEdit] zero_id_state) =
       [scene 0 ''A'', scene 1 ''B2'']
   \<and> editingSceneId (run [EditScene 1 ''B'', TypeDescription ''B2'', SaveEdit] zero_id_state) =
       None"
  by (simp add: run_def handleEditScene_def handleSaveEdit_def statement_defs)

section \<open>The service: demo mode\<close>

lemma regenerateScenario_demo_nth:
  assumes "k < length inputs"
  shows "scenes_demo (regenerateScenario_demo numberToString sid inputs img) ! k =
     \<lparr>scene_id = scene_id (inputs ! k), description = description (inputs ! k),
      imageUrl_demo =
        Some (''/demo/images/scene-'' @ numberToString (scene_id (inputs ! k)) @ ''.png''),
      videoUrl_demo = None,
      title_demo = Some (''Scene '' @ numberToString (scene_id (inputs ! k))),
      duration_sec = Finite 4\<rparr>"
  using assms by (simp add: regenerateScenario_demo_def)

text \<open>
  Claim C10. In demo mode \<open>regenerateScenario\<close> returns the scenario id it was given
  and one scene for each input scene, in the same order, with the input's id and
  description, the image URL \<open>/demo/images/scene-<id>.png\<close>, the title \<open>Scene <id>\<close>,
  the duration 4 and no video URL, where \<open><id>\<close> is the id as JavaScript prints a
  number in a template string. Ids and scenario id are therefore never reassigned. Where
  that printing is the decimal numeral, as it is for every id below \<open>2^53\<close> in
  magnitude, title and image URL of such an id carry its decimal numeral.
\<close>

theorem demo_regenerate_preserves_identity:
  "scenarioId_demo (regenerateScenario_demo numberToString sid inputs img) = sid
   \<and> length (scenes_demo (regenerateScenario_demo numberToString sid inputs img)) =
       length inputs
   \<and> map scene_id (scenes_demo (regenerateScenario_demo numberToString sid inputs img)) =
       map scene_id inputs
   \<and> map description (scenes_demo (regenerateScenario_demo numberToString sid inputs img)) =
       map description inputs
   \<and> (\<forall>k < length inputs.
        scenes_demo (regenerateScenario_demo numberToString sid inputs img) ! k =
          \<lparr>scene_id = scene_id (inputs ! k), description = description (inputs ! k),
           imageUrl_demo =
             Some (''/demo/images/scene-'' @ numberToString (scene_id (inputs ! k)) @ ''.png''),
           videoUrl_demo = None,
           title_demo = Some (''Scene '' @ numberToString (scene_id (inputs ! k))),
           duration_sec = Finite 4\<rparr>)
   \<and> ((\<forall>i. safeInteger i \<longrightarrow> numberToString i = intToString i) \<longrightarrow>
        (\<forall>k < length inputs. safeInteger (scene_id (inputs ! k)) \<longrightarrow>
           title_demo (scenes_demo (regenerateScenario_demo numberToString sid inputs img) ! k) =
             Some (''Scene '' @ intToString (scene_id (inputs ! k)))
           \<and> imageUrl_demo
               (scenes_demo (regenerateScenario_demo numberToString sid inputs img) ! k) =
             Some (''/demo/images/scene-'' @ intToString (scene_id (inputs ! k)) @ ''.png'')))"
proof (intro conjI allI impI)
  show "scenarioId_demo (regenerateScenario_demo numberToString sid inputs img) = sid"
    by (simp add: regenerateScenario_demo_def)
  show "length (scenes_demo (regenerateScenario_demo numberToString sid inputs img)) =
       length inputs"
    by (simp add: regenerateScenario_demo_def)
  show "map scene_id (scenes_demo (regenerateScenario_demo numberToString sid inputs img)) =
       map scene_id inputs"
    by (simp add: regenerateScenario_demo_def comp_def)
  show "map description (scenes_demo (regenerateScenario_demo numberToString sid inputs img)) =
       map description inputs"
    by (simp add: regenerateScenario_demo_def comp_def)
  show "scenes_demo (regenerateScenario_demo numberToString sid inputs img) ! k =
          \<lparr>scene_id = scene_id (inputs ! k), description = description (inputs ! k),
           imageUrl_demo =
             Some (''/demo/images/scene-'' @ numberToString (scene_id (inputs ! k)) @ ''.png''),
           videoUrl_demo = None,
           title_demo = Some (''Scene '' @ numberToString (scene_id (inputs ! k))),
           duration_sec = Finite 4\<rparr>"
    if "k < length inputs" for k
    using that by (rule regenerateScenario_demo_nth)
next
  fix k
  assume agree: "\<forall>i. safeInteger i \<longrightarrow> numberToString i = intToString i"
    and k: "k < length inputs" and safe: "safeInteger (scene_id (inputs ! k))"
  from agree safe have n: "numberToString (scene_id (inputs ! k)) = intToString (scene_id (inputs ! k))"
    by simp
  show "title_demo (scenes_demo (regenerateScenario_demo numberToString sid inputs img) ! k) =
      Some (''Scene '' @ intToString (scene_id (inputs ! k)))"
    by (simp add: regenerateScenario_demo_nth [OF k] n)
  show "imageUrl_demo (scenes_demo (regenerateScenario_demo numberToString sid inputs img) ! k) =
      Some (''/demo/images/scene-'' @ intToString (scene_id (inputs ! k)) @ ''.png'')"
    by (simp add: regenerateScenario_demo_nth [OF k] n)
qed

theorem demo_regenerate_preserves_identity_witness:
  "(1::nat) < length [\<lparr>scene_id = 1, description = ''A2''\<rparr>, \<lparr>scene_id = 12, description = ''B''\<rparr>]
   \<and> safeInteger 1 \<and> safeInteger 12
   \<and> regenerateScenario_demo intToString ''s1''
        [\<lparr>scene_id = 1, description = ''A2''\<rparr>, \<lparr>scene_id = 12, description = ''B''\<rparr>] ''c.png''
      = \<lparr>scenarioId_demo = ''s1'',
         scenes_demo =
           [\<lparr>scene_id = 1, description = ''A2'',
             imageUrl_demo = Some ''/demo/images/scene-1.png'', videoUrl_demo = None,
             title_demo = Some ''Scene 1'', duration_sec = Finite 4\<rparr>,
            \<lparr>scene_id = 12, description = ''B'',
             imageUrl_demo = Some ''/demo/images/scene-12.png'', videoUrl_demo = None,
             title_demo = Some ''Scene 12'', duration_sec = Finite 4\<rparr>]\<rparr>"
  using demo_regenerate_preserves_identity
    [of intToString "''s1''"
      "[\<lparr>scene_id = 1, description = ''A2''\<rparr>, \<lparr>scene_id = 12, description = ''B''\<rparr>]"
      "''c.png''"]
  by (simp add: regenerateScenario_demo_def intToString_def digitsOf.simps safeInteger_def)

end
